theory Spec2Isabelle
  imports Complex_Main "HOL-Library.AList"
begin

section \<open>The host application, as the script sees it\<close>

text \<open>
  The script \<^verbatim>\<open>OVERSHOOT_TOOL_v1.py\<close> runs inside a 3D application and talks to it
  through \<^verbatim>\<open>maya.cmds\<close> only. The host is modelled as a record: the part of the
  scene the script queries (current time, selection, keyable attributes, neighbouring
  keyframes, attribute values over time), the state of the controls of the panel, and a
  trace of the mutating commands the script issues, in order.

  Python floats are idealised as \<^typ>\<open>real\<close>: arithmetic is exact, rounding, infinities
  and NaN are outside the model. Control names, which the script never inspects, are
  opaque handles.
\<close>

type_synonym widget = nat

datatype which_key = Previous | Next

datatype command =
    Select "string list"
  | SetAttr string real
  | SetKeyframe string string real real
  | MelEval string
  | Refresh

record slider_state =
  minValue :: real
  maxValue :: real
  fieldMinValue :: real
  fieldMaxValue :: real
  sliderValue :: real

record host =
  currentTime :: real
  selection :: "string list"
  listAttr :: "string \<Rightarrow> string list option"
  findKeyframe :: "string \<Rightarrow> string \<Rightarrow> which_key \<Rightarrow> real \<Rightarrow> real option"
  getAttr :: "string \<Rightarrow> real \<Rightarrow> real"
  checkBox :: "widget \<Rightarrow> bool"
  floatSliderGrp :: "widget \<Rightarrow> slider_state"
  next_control :: widget
  trace :: "command list"

text \<open>
  \<^item> \<open>listAttr h obj\<close> is the result of
    \<^verbatim>\<open>cmds.listAttr(obj, keyable=True, st=["translate*", "rotate*"])\<close>, \<open>None\<close> when the
    host returns \<^verbatim>\<open>None\<close>;
  \<^item> \<open>findKeyframe h obj attr w t\<close> is the result of
    \<^verbatim>\<open>cmds.findKeyframe(obj, attribute=attr, which=w, time=(t,))\<close>, a keyframe time;
  \<^item> \<open>getAttr h plug t\<close> is \<^verbatim>\<open>cmds.getAttr(plug, time=t)\<close>.

  All reads of a run come before its first write, so the scene functions are a snapshot
  and the writes are recorded in the trace only. \<^verbatim>\<open>cmds.select(objs)\<close> replaces the
  selection, the default mode of the command. What the MEL script of the colour option
  does to the scene is the host's business: it is recorded as one opaque command.
\<close>

definition select :: "string list \<Rightarrow> host \<Rightarrow> host" where
  "select objs h = h\<lparr>selection := objs, trace := trace h @ [Select objs]\<rparr>"

definition setAttr :: "string \<Rightarrow> real \<Rightarrow> host \<Rightarrow> host" where
  "setAttr plug v h = h\<lparr>trace := trace h @ [SetAttr plug v]\<rparr>"

definition setKeyframe :: "string \<Rightarrow> string \<Rightarrow> real \<Rightarrow> real \<Rightarrow> host \<Rightarrow> host" where
  "setKeyframe obj attr t v h = h\<lparr>trace := trace h @ [SetKeyframe obj attr t v]\<rparr>"

definition mel_eval :: "string \<Rightarrow> host \<Rightarrow> host" where
  "mel_eval script h = h\<lparr>trace := trace h @ [MelEval script]\<rparr>"

definition refresh :: "host \<Rightarrow> host" where
  "refresh h = h\<lparr>trace := trace h @ [Refresh]\<rparr>"

text \<open>The commands issued between two host states of one run.\<close>

definition issued :: "host \<Rightarrow> host \<Rightarrow> command list" where
  "issued h h' = drop (length (trace h)) (trace h')"

section \<open>Module state\<close>

text \<open>
  The module-level variables that hold the control names. \<^verbatim>\<open>slider\<close> and
  \<^verbatim>\<open>color_checkboxes\<close> are never read and are left out.
\<close>

record ui =
  color_checkbox :: widget
  translate_checkboxes :: "widget list"
  rotate_checkboxes :: "widget list"
  check_all :: widget
  intensity_slider :: widget

datatype py_error = IndexError | KeyError

section \<open>The overshoot computation\<close>

definition calculate_overshoot :: "real \<Rightarrow> real \<Rightarrow> real \<Rightarrow> real" where
  "calculate_overshoot val velocity intensity = val + (velocity * intensity)"

definition channels :: "string list" where
  "channels = [''translateX'', ''translateY'', ''translateZ'',
               ''rotateX'', ''rotateY'', ''rotateZ'']"

text \<open>
  The dictionary \<^verbatim>\<open>attribute_checkboxes\<close> (lines 34-41). Indexing a list that is too
  short raises \<^verbatim>\<open>IndexError\<close>.
\<close>

definition attribute_checkboxes :: "ui \<Rightarrow> py_error + (string \<times> widget) list" where
  "attribute_checkboxes u =
     (if length (translate_checkboxes u) < 3 \<or> length (rotate_checkboxes u) < 3
      then Inl IndexError
      else Inr [(''translateX'', translate_checkboxes u ! 0),
                (''translateY'', translate_checkboxes u ! 1),
                (''translateZ'', translate_checkboxes u ! 2),
                (''rotateX'', rotate_checkboxes u ! 0),
                (''rotateY'', rotate_checkboxes u ! 1),
                (''rotateZ'', rotate_checkboxes u ! 2)])"

text \<open>
  Lines 66-71: the three reads of the channel and the arithmetic, for a channel whose
  neighbouring keyframes are at \<open>previous_key\<close> and \<open>next_key\<close>.
\<close>

definition overshoot_value ::
  "host \<Rightarrow> string \<Rightarrow> string \<Rightarrow> real \<Rightarrow> real \<Rightarrow> real \<Rightarrow> int \<Rightarrow> real \<Rightarrow> real" where
  "overshoot_value h obj attr current_frame previous_key next_key direction intensity =
     (let prev_value = getAttr h (obj @ ''.'' @ attr) previous_key;
          next_value = getAttr h (obj @ ''.'' @ attr) next_key;
          current_value = getAttr h (obj @ ''.'' @ attr) current_frame;
          velocity = (next_value - prev_value) * real_of_int direction
      in calculate_overshoot current_value velocity intensity)"

text \<open>
  The inner loop (lines 53-73) over the attributes of one object; \<open>obj_data\<close> is the
  dictionary being filled, an association list in insertion order.
\<close>

fun collect_attrs ::
  "(string \<times> widget) list \<Rightarrow> host \<Rightarrow> real \<Rightarrow> real \<Rightarrow> int \<Rightarrow> string \<Rightarrow> string list \<Rightarrow>
   (string \<times> real) list \<Rightarrow> py_error + (string \<times> real) list" where
  "collect_attrs acb h current_frame intensity direction obj [] obj_data = Inr obj_data"
| "collect_attrs acb h current_frame intensity direction obj (attr # attrs) obj_data =
     (if attr \<notin> set channels
      then collect_attrs acb h current_frame intensity direction obj attrs obj_data
      else case map_of acb attr of
        None \<Rightarrow> Inl KeyError
      | Some cb \<Rightarrow>
          if \<not> checkBox h cb
          then collect_attrs acb h current_frame intensity direction obj attrs obj_data
          else
            (case findKeyframe h obj attr Previous current_frame of
               None \<Rightarrow> collect_attrs acb h current_frame intensity direction obj attrs obj_data
             | Some previous_key \<Rightarrow>
                 (case findKeyframe h obj attr Next current_frame of
                    None \<Rightarrow>
                      collect_attrs acb h current_frame intensity direction obj attrs obj_data
                  | Some next_key \<Rightarrow>
                      if previous_key \<noteq> next_key
                      then collect_attrs acb h current_frame intensity direction obj attrs
                             (AList.update attr
                                (overshoot_value h obj attr current_frame previous_key next_key
                                   direction intensity)
                                obj_data)
                      else collect_attrs acb h current_frame intensity direction obj attrs
                             obj_data)))"

text \<open>The outer loop (lines 46-76) over the selected objects.\<close>

fun collect_objects ::
  "(string \<times> widget) list \<Rightarrow> host \<Rightarrow> real \<Rightarrow> real \<Rightarrow> int \<Rightarrow> string list \<Rightarrow>
   (string \<times> (string \<times> real) list) list \<Rightarrow>
   py_error + (string \<times> (string \<times> real) list) list" where
  "collect_objects acb h current_frame intensity direction [] objects_data = Inr objects_data"
| "collect_objects acb h current_frame intensity direction (obj # objs) objects_data =
     (case listAttr h obj of
        None \<Rightarrow> collect_objects acb h current_frame intensity direction objs objects_data
      | Some attrs \<Rightarrow>
          (case collect_attrs acb h current_frame intensity direction obj attrs [] of
             Inl e \<Rightarrow> Inl e
           | Inr obj_data \<Rightarrow>
               if obj_data \<noteq> []
               then collect_objects acb h current_frame intensity direction objs
                      (AList.update obj obj_data objects_data)
               else collect_objects acb h current_frame intensity direction objs
                      objects_data))"

text \<open>The write loops (lines 80-91).\<close>

fun write_attrs :: "string \<Rightarrow> real \<Rightarrow> (string \<times> real) list \<Rightarrow> host \<Rightarrow> host" where
  "write_attrs obj current_frame [] h = h"
| "write_attrs obj current_frame ((attr, v) # obj_data) h =
     write_attrs obj current_frame obj_data
       (setKeyframe obj attr current_frame v (setAttr (obj @ ''.'' @ attr) v h))"

definition mel_script :: string where
  "mel_script =
     ''performSetKeyframeArgList 1 {'' @ [CHR 0x22] @ ''0'' @ [CHR 0x22] @ '', ''
       @ [CHR 0x22] @ ''animationList'' @ [CHR 0x22] @ ''}; ''
       @ ''keyframe -time `currentTime -q` -tds 1;''"

fun write_objects ::
  "ui \<Rightarrow> real \<Rightarrow> (string \<times> (string \<times> real) list) list \<Rightarrow> host \<Rightarrow> host" where
  "write_objects u current_frame [] h = h"
| "write_objects u current_frame ((obj, obj_data) # objects_data) h =
     (let h1 = write_attrs obj current_frame obj_data (select [obj] h);
          h2 = (if checkBox h1 (color_checkbox u) then mel_eval mel_script h1 else h1)
      in write_objects u current_frame objects_data h2)"

text \<open>
  \<^verbatim>\<open>apply_overshoot(direction)\<close>. An exception can only be raised before the first
  mutating command, so the result is either the error or the host state after the run.
\<close>

definition apply_overshoot :: "ui \<Rightarrow> host \<Rightarrow> int \<Rightarrow> py_error + host" where
  "apply_overshoot u h direction =
     (let current_frame = currentTime h;
          intensity = sliderValue (floatSliderGrp h (intensity_slider u))
      in case attribute_checkboxes u of
           Inl e \<Rightarrow> Inl e
         | Inr acb \<Rightarrow>
             (let selected_objects = selection h
              in case collect_objects acb h current_frame intensity direction
                        selected_objects [] of
                   Inl e \<Rightarrow> Inl e
                 | Inr objects_data \<Rightarrow>
                     Inr (refresh
                           (select selected_objects
                             (write_objects u current_frame objects_data
                               (select selected_objects h))))))"

definition overshoot_positive :: "ui \<Rightarrow> host \<Rightarrow> py_error + host" where
  "overshoot_positive u h = apply_overshoot u h 1"

definition overshoot_negative :: "ui \<Rightarrow> host \<Rightarrow> py_error + host" where
  "overshoot_negative u h = apply_overshoot u h (- 1)"

section \<open>The panel\<close>

definition checkBox_edit :: "widget \<Rightarrow> bool \<Rightarrow> host \<Rightarrow> host" where
  "checkBox_edit cb b h = h\<lparr>checkBox := (checkBox h)(cb := b)\<rparr>"

definition toggle_all_checkboxes :: "ui \<Rightarrow> host \<Rightarrow> host" where
  "toggle_all_checkboxes u h =
     (let all_value = checkBox h (check_all u)
      in fold (\<lambda>checkbox. checkBox_edit checkbox all_value)
           (translate_checkboxes u @ rotate_checkboxes u) h)"

text \<open>
  Creating a control: the host hands out a fresh name. A check box is created unchecked
  unless a value is given.
\<close>

definition new_checkBox :: "bool \<Rightarrow> host \<Rightarrow> widget \<times> host" where
  "new_checkBox b h =
     (next_control h,
      h\<lparr>checkBox := (checkBox h)(next_control h := b), next_control := Suc (next_control h)\<rparr>)"

definition new_floatSliderGrp :: "slider_state \<Rightarrow> host \<Rightarrow> widget \<times> host" where
  "new_floatSliderGrp s h =
     (next_control h,
      h\<lparr>floatSliderGrp := (floatSliderGrp h)(next_control h := s),
        next_control := Suc (next_control h)\<rparr>)"

text \<open>
  \<^verbatim>\<open>create_window()\<close>: the controls the callbacks read, in creation order, then the
  call of \<^verbatim>\<open>toggle_all_checkboxes()\<close> that ends it. Layouts, separators, buttons and
  the window itself carry no state that the callbacks read and are left out.
\<close>

definition create_window :: "host \<Rightarrow> ui \<times> host" where
  "create_window h0 =
     (let (sl, h1) = new_floatSliderGrp
                       \<lparr>minValue = 0, maxValue = 2.0, fieldMinValue = 0, fieldMaxValue = 20,
                        sliderValue = 0.1\<rparr> h0;
          (ca, h2) = new_checkBox True h1;
          (tx, h3) = new_checkBox False h2;
          (ty, h4) = new_checkBox False h3;
          (tz, h5) = new_checkBox False h4;
          (rx, h6) = new_checkBox False h5;
          (ry, h7) = new_checkBox False h6;
          (rz, h8) = new_checkBox False h7;
          (cc, h9) = new_checkBox False h8;
          u = \<lparr>color_checkbox = cc, translate_checkboxes = [tx, ty, tz],
               rotate_checkboxes = [rx, ry, rz], check_all = ca, intensity_slider = sl\<rparr>
      in (u, toggle_all_checkboxes u h9))"


text \<open>
  What the user can do with the panel. A number typed into the field of the intensity
  slider (or dragged on it) is kept by the host within the field limits the control was
  created with; clicking a check box flips it, and the \<^verbatim>\<open>changeCommand\<close> of
  ``Check All'' then runs \<^verbatim>\<open>toggle_all_checkboxes\<close>; the two buttons run the two
  callbacks. An exception in a callback leaves the host as it was.
\<close>

definition floatSliderGrp_input :: "widget \<Rightarrow> real \<Rightarrow> host \<Rightarrow> host" where
  "floatSliderGrp_input w x h =
     (let s = floatSliderGrp h w
      in h\<lparr>floatSliderGrp := (floatSliderGrp h)
              (w := s\<lparr>sliderValue := max (fieldMinValue s) (min (fieldMaxValue s) x)\<rparr>)\<rparr>)"

datatype event = SliderInput real | CheckBoxClick widget | PressPositive | PressNegative

fun handle :: "ui \<Rightarrow> event \<Rightarrow> host \<Rightarrow> host" where
  "handle u (SliderInput x) h = floatSliderGrp_input (intensity_slider u) x h"
| "handle u (CheckBoxClick w) h =
     (let h1 = checkBox_edit w (\<not> checkBox h w) h
      in if w = check_all u then toggle_all_checkboxes u h1 else h1)"
| "handle u PressPositive h = (case overshoot_positive u h of Inl e \<Rightarrow> h | Inr h' \<Rightarrow> h')"
| "handle u PressNegative h = (case overshoot_negative u h of Inl e \<Rightarrow> h | Inr h' \<Rightarrow> h')"


section \<open>Summaries of the loops\<close>

text \<open>
  The decision the inner loop takes for one attribute: the value it stores, or \<open>None\<close>
  when it moves on without storing one.
\<close>
definition channel_result ::
  "(string \<times> widget) list \<Rightarrow> host \<Rightarrow> real \<Rightarrow> real \<Rightarrow> int \<Rightarrow> string \<Rightarrow> string \<Rightarrow> real option" where
  "channel_result acb h current_frame intensity direction obj attr =
     (if attr \<notin> set channels then None
      else case map_of acb attr of
        None \<Rightarrow> None
      | Some cb \<Rightarrow>
          if \<not> checkBox h cb then None
          else
            (case findKeyframe h obj attr Previous current_frame of
               None \<Rightarrow> None
             | Some previous_key \<Rightarrow>
                 (case findKeyframe h obj attr Next current_frame of
                    None \<Rightarrow> None
                  | Some next_key \<Rightarrow>
                      if previous_key \<noteq> next_key
                      then Some (overshoot_value h obj attr current_frame previous_key next_key
                                   direction intensity)
                      else None)))"

definition keys_present :: "(string \<times> widget) list \<Rightarrow> bool" where
  "keys_present acb = (\<forall>a \<in> set channels. map_of acb a \<noteq> None)"

definition object_result ::
  "(string \<times> widget) list \<Rightarrow> host \<Rightarrow> real \<Rightarrow> real \<Rightarrow> int \<Rightarrow> string \<Rightarrow> (string \<times> real) list option" where
  "object_result acb h current_frame intensity direction obj =
     (case listAttr h obj of
        None \<Rightarrow> None
      | Some attrs \<Rightarrow>
          (case collect_attrs acb h current_frame intensity direction obj attrs [] of
             Inl e \<Rightarrow> None
           | Inr obj_data \<Rightarrow> if obj_data \<noteq> [] then Some obj_data else None))"

definition attr_commands :: "string \<Rightarrow> real \<Rightarrow> (string \<times> real) list \<Rightarrow> command list" where
  "attr_commands obj current_frame obj_data =
     concat (map (\<lambda>(attr, v). [SetAttr (obj @ ''.'' @ attr) v, SetKeyframe obj attr current_frame v])
               obj_data)"

definition object_commands ::
  "bool \<Rightarrow> real \<Rightarrow> (string \<times> (string \<times> real) list) list \<Rightarrow> command list" where
  "object_commands colour current_frame objects_data =
     concat (map (\<lambda>(obj, obj_data).
                    Select [obj] # attr_commands obj current_frame obj_data
                      @ (if colour then [MelEval mel_script] else []))
               objects_data)"


section \<open>A small scene\<close>

text \<open>
  Two selected objects at frame 10. The ball has no keyable translate or rotate
  attribute. On the cube, \<open>translateX\<close> goes from 0 (key at frame 0) to 10 (key at
  frame 20) and is 10 now; \<open>translateY\<close> has no next key; the two neighbours of
  \<open>translateZ\<close> are one and the same key; \<open>rotateX\<close> has keys at frames 0 and 20 with
  the same value 5; \<open>rotateY\<close> is animated like \<open>translateX\<close> but its box is unchecked.
  The intensity is 0.5 and the colour box is unchecked.
\<close>

definition demo_ui :: ui where
  "demo_ui = \<lparr>color_checkbox = 8, translate_checkboxes = [2, 3, 4],
              rotate_checkboxes = [5, 6, 7], check_all = 1, intensity_slider = 0\<rparr>"

definition demo_host :: host where
  "demo_host =
     \<lparr>currentTime = 10,
      selection = [''cube'', ''ball''],
      listAttr = (\<lambda>obj. if obj = ''cube''
                   then Some [''translateX'', ''translateY'', ''translateZ'', ''rotateX'',
                              ''rotateY'', ''rotateOrder'']
                   else None),
      findKeyframe = (\<lambda>obj attr w t.
                   if attr = ''translateY'' then (case w of Previous \<Rightarrow> Some 0 | Next \<Rightarrow> None)
                   else if attr = ''translateZ'' then Some 10
                   else (case w of Previous \<Rightarrow> Some 0 | Next \<Rightarrow> Some 20)),
      getAttr = (\<lambda>plug t. if plug = ''cube.rotateX'' then 5 else if t = 0 then 0 else 10),
      checkBox = (\<lambda>w. w \<noteq> 6 \<and> w \<noteq> 8),
      floatSliderGrp = (\<lambda>w. \<lparr>minValue = 0, maxValue = 2.0, fieldMinValue = 0,
                              fieldMaxValue = 20, sliderValue = 0.5\<rparr>),
      next_control = 9,
      trace = []\<rparr>"

definition demo_commands :: "int \<Rightarrow> command list" where
  "demo_commands direction =
     [Select [''cube'', ''ball''],
      Select [''cube''],
      SetAttr ''cube.translateX'' (10 + 10 * real_of_int direction * 0.5),
      SetKeyframe ''cube'' ''translateX'' 10 (10 + 10 * real_of_int direction * 0.5),
      SetAttr ''cube.rotateX'' 5,
      SetKeyframe ''cube'' ''rotateX'' 10 5,
      Select [''cube'', ''ball''],
      Refresh]"

definition demo_result :: "int \<Rightarrow> host" where
  "demo_result direction = demo_host\<lparr>trace := demo_commands direction\<rparr>"

section \<open>Properties of the loops\<close>

lemma collect_attrs_total:
  "keys_present acb \<Longrightarrow> \<exists>od'. collect_attrs acb h cf i d obj attrs od = Inr od'"
  by (induction attrs arbitrary: od) (auto simp: keys_present_def split: option.splits)

lemma collect_attrs_map_of:
  "collect_attrs acb h cf i d obj attrs od = Inr od' \<Longrightarrow>
   map_of od' a =
     (if a \<in> set attrs \<and> channel_result acb h cf i d obj a \<noteq> None
      then channel_result acb h cf i d obj a else map_of od a)"
proof (induction attrs arbitrary: od)
  case Nil
  then show ?case by simp
next
  case (Cons x xs)
  then show ?case
    by (auto simp: channel_result_def update_conv' split: if_splits option.splits)
qed

lemma collect_attrs_distinct:
  "collect_attrs acb h cf i d obj attrs od = Inr od' \<Longrightarrow> distinct (map fst od) \<Longrightarrow>
   distinct (map fst od')"
  by (induction attrs arbitrary: od) (auto simp: distinct_update split: if_splits option.splits)


lemma collect_objects_total:
  "keys_present acb \<Longrightarrow> \<exists>ods'. collect_objects acb h cf i d objs ods = Inr ods'"
proof (induction objs arbitrary: ods)
  case Nil
  then show ?case by simp
next
  case (Cons obj objs)
  show ?case
  proof (cases "listAttr h obj")
    case None
    then show ?thesis using Cons by simp
  next
    case (Some attrs)
    obtain od where "collect_attrs acb h cf i d obj attrs [] = Inr od"
      using collect_attrs_total [OF Cons.prems] by blast
    then show ?thesis using Some Cons by simp
  qed
qed

lemma collect_objects_map_of:
  "collect_objects acb h cf i d objs ods = Inr ods' \<Longrightarrow>
   map_of ods' ob =
     (if ob \<in> set objs \<and> object_result acb h cf i d ob \<noteq> None
      then object_result acb h cf i d ob else map_of ods ob)"
proof (induction objs arbitrary: ods)
  case Nil
  then show ?case by simp
next
  case (Cons x xs)
  then show ?case
    by (auto simp: object_result_def update_conv' split: if_splits option.splits sum.splits)
qed

lemma collect_objects_distinct:
  "collect_objects acb h cf i d objs ods = Inr ods' \<Longrightarrow> distinct (map fst ods) \<Longrightarrow>
   distinct (map fst ods')"
  by (induction objs arbitrary: ods)
     (auto simp: distinct_update split: if_splits option.splits sum.splits)

lemma write_attrs_trace:
  "trace (write_attrs obj cf od h) = trace h @ attr_commands obj cf od"
  by (induction od arbitrary: h)
     (auto simp: attr_commands_def setAttr_def setKeyframe_def)

lemma write_attrs_checkBox [simp]: "checkBox (write_attrs obj cf od h) = checkBox h"
  by (induction od arbitrary: h) (auto simp: setAttr_def setKeyframe_def)

lemma write_objects_checkBox [simp]: "checkBox (write_objects u cf ods h) = checkBox h"
  by (induction ods arbitrary: h) (auto simp: select_def mel_eval_def Let_def)

lemma write_objects_trace:
  "trace (write_objects u cf ods h)
     = trace h @ object_commands (checkBox h (color_checkbox u)) cf ods"
  by (induction ods arbitrary: h)
     (auto simp: object_commands_def write_attrs_trace select_def mel_eval_def Let_def)

lemma apply_overshoot_trace:
  assumes "apply_overshoot u h d = Inr h'"
  shows "\<exists>acb ods.
           attribute_checkboxes u = Inr acb \<and>
           collect_objects acb h (currentTime h)
             (sliderValue (floatSliderGrp h (intensity_slider u))) d (selection h) [] = Inr ods \<and>
           issued h h' =
             Select (selection h)
               # object_commands (checkBox h (color_checkbox u)) (currentTime h) ods
               @ [Select (selection h), Refresh]"
  using assms
  by (auto simp: apply_overshoot_def Let_def issued_def refresh_def select_def
        write_objects_trace split: sum.splits)

lemma apply_overshoot_selection:
  "apply_overshoot u h d = Inr h' \<Longrightarrow> selection h' = selection h"
  by (auto simp: apply_overshoot_def Let_def refresh_def select_def split: sum.splits)


lemma SetKeyframe_attr_commands:
  "SetKeyframe ob a t v \<in> set (attr_commands obj cf od)
     \<longleftrightarrow> ob = obj \<and> t = cf \<and> (a, v) \<in> set od"
  by (auto simp: attr_commands_def)

lemma SetAttr_attr_commands:
  "SetAttr plug v \<in> set (attr_commands obj cf od)
     \<longleftrightarrow> (\<exists>a. plug = obj @ ''.'' @ a \<and> (a, v) \<in> set od)"
  by (auto simp: attr_commands_def)

lemma SetKeyframe_object_commands:
  "SetKeyframe ob a t v \<in> set (object_commands c cf ods)
     \<longleftrightarrow> t = cf \<and> (\<exists>od. (ob, od) \<in> set ods \<and> (a, v) \<in> set od)"
  by (auto simp: object_commands_def SetKeyframe_attr_commands)

lemma SetAttr_object_commands:
  "SetAttr plug v \<in> set (object_commands c cf ods)
     \<longleftrightarrow> (\<exists>ob a od. plug = ob @ ''.'' @ a \<and> (ob, od) \<in> set ods \<and> (a, v) \<in> set od)"
  by (auto simp: object_commands_def SetAttr_attr_commands)

lemma collect_objects_no_error:
  "collect_objects acb h cf i d objs ods = Inr ods' \<Longrightarrow> ob \<in> set objs \<Longrightarrow>
   listAttr h ob = Some attrs \<Longrightarrow> \<exists>od. collect_attrs acb h cf i d ob attrs [] = Inr od"
  by (induction objs arbitrary: ods) (auto split: option.splits sum.splits if_splits)

lemma written_entry:
  assumes "collect_objects acb h cf i d objs [] = Inr ods"
  shows "(\<exists>od. (ob, od) \<in> set ods \<and> (a, v) \<in> set od)
           \<longleftrightarrow> ob \<in> set objs \<and> (\<exists>attrs. listAttr h ob = Some attrs \<and> a \<in> set attrs)
               \<and> channel_result acb h cf i d ob a = Some v"
    (is "?L \<longleftrightarrow> ?R")
proof
  have dist: "distinct (map fst ods)"
    using collect_objects_distinct [OF assms] by simp
  assume ?L
  then obtain od where od: "(ob, od) \<in> set ods" "(a, v) \<in> set od" by blast
  from od(1) dist have "map_of ods ob = Some od" by simp
  with collect_objects_map_of [OF assms, of ob]
  have ob: "ob \<in> set objs" and res: "object_result acb h cf i d ob = Some od"
    by (auto split: if_splits)
  from res obtain attrs where attrs: "listAttr h ob = Some attrs"
    and coll: "collect_attrs acb h cf i d ob attrs [] = Inr od"
    by (auto simp: object_result_def split: option.splits sum.splits if_splits)
  have "distinct (map fst od)" using collect_attrs_distinct [OF coll] by simp
  with od(2) have "map_of od a = Some v" by simp
  with collect_attrs_map_of [OF coll, of a]
  have "a \<in> set attrs" "channel_result acb h cf i d ob a = Some v"
    by (auto split: if_splits)
  with ob attrs show ?R by simp
next
  assume R: ?R
  then obtain attrs where ob: "ob \<in> set objs" and attrs: "listAttr h ob = Some attrs"
    and a: "a \<in> set attrs" and res: "channel_result acb h cf i d ob a = Some v"
    by blast
  obtain od where coll: "collect_attrs acb h cf i d ob attrs [] = Inr od"
    using collect_objects_no_error [OF assms ob attrs] by blast
  from collect_attrs_map_of [OF coll, of a] a res have m: "map_of od a = Some v" by simp
  then have "od \<noteq> []" by auto
  with attrs coll have "object_result acb h cf i d ob = Some od"
    by (simp add: object_result_def)
  with collect_objects_map_of [OF assms, of ob] ob have "map_of ods ob = Some od" by simp
  with m show ?L by (blast dest: map_of_SomeD)
qed


lemma SetKeyframe_issued:
  assumes "apply_overshoot u h d = Inr h'" and "attribute_checkboxes u = Inr acb"
  shows "SetKeyframe ob a t v \<in> set (issued h h')
           \<longleftrightarrow> t = currentTime h \<and> ob \<in> set (selection h)
               \<and> (\<exists>attrs. listAttr h ob = Some attrs \<and> a \<in> set attrs)
               \<and> channel_result acb h (currentTime h)
                     (sliderValue (floatSliderGrp h (intensity_slider u))) d ob a = Some v"
proof -
  obtain ods where
    coll: "collect_objects acb h (currentTime h)
             (sliderValue (floatSliderGrp h (intensity_slider u))) d (selection h) [] = Inr ods"
    and iss: "issued h h' =
             Select (selection h)
               # object_commands (checkBox h (color_checkbox u)) (currentTime h) ods
               @ [Select (selection h), Refresh]"
    using apply_overshoot_trace [OF assms(1)] assms(2) by auto
  show ?thesis
    unfolding iss using written_entry [OF coll, of ob a v]
    by (simp add: SetKeyframe_object_commands)
qed

lemma SetAttr_issued:
  assumes "apply_overshoot u h d = Inr h'" and "attribute_checkboxes u = Inr acb"
  shows "SetAttr plug v \<in> set (issued h h')
           \<longleftrightarrow> (\<exists>ob a. plug = ob @ ''.'' @ a \<and> ob \<in> set (selection h)
               \<and> (\<exists>attrs. listAttr h ob = Some attrs \<and> a \<in> set attrs)
               \<and> channel_result acb h (currentTime h)
                     (sliderValue (floatSliderGrp h (intensity_slider u))) d ob a = Some v)"
proof -
  obtain ods where
    coll: "collect_objects acb h (currentTime h)
             (sliderValue (floatSliderGrp h (intensity_slider u))) d (selection h) [] = Inr ods"
    and iss: "issued h h' =
             Select (selection h)
               # object_commands (checkBox h (color_checkbox u)) (currentTime h) ods
               @ [Select (selection h), Refresh]"
    using apply_overshoot_trace [OF assms(1)] assms(2) by auto
  show ?thesis
    unfolding iss using written_entry [OF coll]
    by (simp add: SetAttr_object_commands)
qed

lemma attribute_checkboxes_keys:
  "attribute_checkboxes u = Inr acb \<Longrightarrow> keys_present acb"
  by (auto simp: attribute_checkboxes_def keys_present_def channels_def split: if_splits)

lemma apply_overshoot_total:
  assumes "3 \<le> length (translate_checkboxes u)" "3 \<le> length (rotate_checkboxes u)"
  shows "\<exists>h'. apply_overshoot u h d = Inr h'"
proof -
  obtain acb where acb: "attribute_checkboxes u = Inr acb"
    using assms by (auto simp: attribute_checkboxes_def)
  obtain ods where "collect_objects acb h (currentTime h)
             (sliderValue (floatSliderGrp h (intensity_slider u))) d (selection h) [] = Inr ods"
    using collect_objects_total [OF attribute_checkboxes_keys [OF acb]] by blast
  with acb show ?thesis by (simp add: apply_overshoot_def Let_def)
qed





section \<open>The run on the small scene\<close>


lemma demo_acb:
  "attribute_checkboxes demo_ui =
     Inr [(''translateX'', 2), (''translateY'', 3), (''translateZ'', 4),
          (''rotateX'', 5), (''rotateY'', 6), (''rotateZ'', 7)]"
  by (simp add: attribute_checkboxes_def demo_ui_def)

lemma demo_attrs:
  "collect_attrs
     [(''translateX'', 2), (''translateY'', 3), (''translateZ'', 4),
      (''rotateX'', 5), (''rotateY'', 6), (''rotateZ'', 7)]
     demo_host 10 (1 / 2) d ''cube''
     [''translateX'', ''translateY'', ''translateZ'', ''rotateX'', ''rotateY'', ''rotateOrder'']
     []
   = Inr [(''translateX'', 10 + 10 * real_of_int d * (1 / 2)), (''rotateX'', 5)]"
  by (simp add: demo_host_def channels_def overshoot_value_def calculate_overshoot_def)


lemma demo_listAttr:
  "listAttr demo_host ''cube'' =
     Some [''translateX'', ''translateY'', ''translateZ'', ''rotateX'', ''rotateY'', ''rotateOrder'']"
  "listAttr demo_host ''ball'' = None"
  by (simp_all add: demo_host_def)

lemma demo_collect:
  "collect_objects
     [(''translateX'', 2), (''translateY'', 3), (''translateZ'', 4),
      (''rotateX'', 5), (''rotateY'', 6), (''rotateZ'', 7)]
     demo_host 10 (1 / 2) d [''cube'', ''ball''] []
   = Inr [(''cube'', [(''translateX'', 10 + 10 * real_of_int d * (1 / 2)), (''rotateX'', 5)])]"
  apply (simp only: collect_objects.simps demo_listAttr option.case demo_attrs sum.case)
  apply (simp only: AList.update.simps list.simps if_True if_False not_False_eq_True simp_thms)
  done


lemma demo_fields:
  "currentTime demo_host = 10" "selection demo_host = [''cube'', ''ball'']"
  "sliderValue (floatSliderGrp demo_host (intensity_slider demo_ui)) = 1 / 2"
  "checkBox demo_host (color_checkbox demo_ui) = False"
  "trace demo_host = []"
  by (simp_all add: demo_host_def demo_ui_def)

lemma demo_write:
  "write_objects demo_ui 10
     [(''cube'', [(''translateX'', 10 + 10 * real_of_int d * (1 / 2)), (''rotateX'', 5)])]
     (select [''cube'', ''ball''] demo_host)
   = demo_host\<lparr>selection := [''cube''],
       trace := [Select [''cube'', ''ball''],
                 Select [''cube''],
                 SetAttr ''cube.translateX'' (10 + 10 * real_of_int d * 0.5),
                 SetKeyframe ''cube'' ''translateX'' 10 (10 + 10 * real_of_int d * 0.5),
                 SetAttr ''cube.rotateX'' 5,
                 SetKeyframe ''cube'' ''rotateX'' 10 5]\<rparr>"
  by (simp add: select_def setAttr_def setKeyframe_def demo_fields)

lemma demo_run: "apply_overshoot demo_ui demo_host d = Inr (demo_result d)"
  unfolding apply_overshoot_def Let_def demo_acb demo_fields sum.case demo_collect demo_write
  by (simp add: demo_result_def demo_commands_def select_def refresh_def demo_fields)

lemma demo_issued: "issued demo_host (demo_result d) = demo_commands d"
  by (simp add: issued_def demo_result_def demo_fields)



section \<open>Which channels a run writes\<close>

lemma channel_result_Some:
  "channel_result acb h cf i d obj attr = Some v \<longleftrightarrow>
     attr \<in> set channels \<and> (\<exists>cb. map_of acb attr = Some cb \<and> checkBox h cb)
     \<and> (\<exists>pk nk. findKeyframe h obj attr Previous cf = Some pk
            \<and> findKeyframe h obj attr Next cf = Some nk \<and> pk \<noteq> nk
            \<and> v = overshoot_value h obj attr cf pk nk d i)"
  by (auto simp: channel_result_def split: option.splits)



section \<open>The overshoot formula\<close>

text \<open>
  C1. For a processed channel with current value \<open>c\<close>, previous value \<open>p\<close>, next value
  \<open>n\<close>, direction \<open>d\<close> and intensity \<open>i\<close>, the value computed is exactly
  \<open>c + (n - p) * d * i\<close>. With \<open>p = 0\<close>, \<open>n = 10\<close>, \<open>c = 10\<close>, \<open>d = 1\<close> and \<open>i = 0.5\<close> the
  velocity is 10 and the result 15; on the small scene this is the value the run writes
  to \<open>cube.translateX\<close>.
\<close>

theorem C1_overshoot_formula:
  "overshoot_value h obj attr current_frame previous_key next_key d i
     = getAttr h (obj @ ''.'' @ attr) current_frame
       + (getAttr h (obj @ ''.'' @ attr) next_key - getAttr h (obj @ ''.'' @ attr) previous_key)
         * real_of_int d * i
   \<and> (10 - 0) * real_of_int 1 = (10 :: real)
   \<and> calculate_overshoot 10 ((10 - 0) * real_of_int 1) 0.5 = 15
   \<and> overshoot_value demo_host ''cube'' ''translateX'' 10 0 20 1 0.5 = 15
   \<and> apply_overshoot demo_ui demo_host 1 = Inr (demo_result 1)
   \<and> SetAttr ''cube.translateX'' 15 \<in> set (issued demo_host (demo_result 1))"
proof -
  have "overshoot_value demo_host ''cube'' ''translateX'' 10 0 20 1 0.5 = 15"
    by (simp add: overshoot_value_def calculate_overshoot_def demo_host_def)
  moreover have "SetAttr ''cube.translateX'' 15 \<in> set (issued demo_host (demo_result 1))"
    by (simp add: demo_issued demo_commands_def)
  ultimately show ?thesis
    by (simp add: overshoot_value_def calculate_overshoot_def demo_run)
qed




section \<open>Skipped channels\<close>







section \<open>Processed channels\<close>

text \<open>
  C4. For a selected object and a channel among the six that is listed as keyable, whose
  box is checked and whose two neighbouring keyframes exist at distinct times, the run
  completes, sets the attribute to the overshoot value and inserts a keyframe with that
  value at the current time.
\<close>

theorem C4_processed_channel_written:
  assumes "attribute_checkboxes u = Inr acb"
    and "obj \<in> set (selection h)"
    and "listAttr h obj = Some attrs" and "attr \<in> set attrs"
    and "attr \<in> set channels"
    and "map_of acb attr = Some cb" and "checkBox h cb"
    and "findKeyframe h obj attr Previous (currentTime h) = Some previous_key"
    and "findKeyframe h obj attr Next (currentTime h) = Some next_key"
    and "previous_key \<noteq> next_key"
  shows "\<exists>h'. apply_overshoot u h d = Inr h'
           \<and> SetAttr (obj @ ''.'' @ attr)
                 (overshoot_value h obj attr (currentTime h) previous_key next_key d
                    (sliderValue (floatSliderGrp h (intensity_slider u))))
               \<in> set (issued h h')
           \<and> SetKeyframe obj attr (currentTime h)
                 (overshoot_value h obj attr (currentTime h) previous_key next_key d
                    (sliderValue (floatSliderGrp h (intensity_slider u))))
               \<in> set (issued h h')"
proof -
  let ?i = "sliderValue (floatSliderGrp h (intensity_slider u))"
  let ?v = "overshoot_value h obj attr (currentTime h) previous_key next_key d ?i"
  from assms(1) have len: "3 \<le> length (translate_checkboxes u)"
    "3 \<le> length (rotate_checkboxes u)"
    by (auto simp: attribute_checkboxes_def split: if_splits)
  then obtain h' where run: "apply_overshoot u h d = Inr h'"
    using apply_overshoot_total by blast
  have res: "channel_result acb h (currentTime h) ?i d obj attr = Some ?v"
    using assms(5-10) by (simp add: channel_result_Some)
  have "SetKeyframe obj attr (currentTime h) ?v \<in> set (issued h h')"
    using SetKeyframe_issued [OF run assms(1), of obj attr "currentTime h" ?v]
      assms(2-4) res by simp
  moreover have "SetAttr (obj @ ''.'' @ attr) ?v \<in> set (issued h h')"
    using SetAttr_issued [OF run assms(1), of "obj @ ''.'' @ attr" ?v]
      assms(2-4) res by blast
  ultimately show ?thesis using run by blast
qed

theorem C4_processed_channel_witness:
  "''cube'' \<in> set (selection demo_host)
   \<and> ''translateX'' \<in> set channels
   \<and> checkBox demo_host 2
   \<and> findKeyframe demo_host ''cube'' ''translateX'' Previous (currentTime demo_host) = Some 0
   \<and> findKeyframe demo_host ''cube'' ''translateX'' Next (currentTime demo_host) = Some 20
   \<and> (\<exists>h'. apply_overshoot demo_ui demo_host (- 1) = Inr h'
          \<and> SetAttr ''cube.translateX'' 5 \<in> set (issued demo_host h')
          \<and> SetKeyframe ''cube'' ''translateX'' 10 5 \<in> set (issued demo_host h'))"
proof -
  have sel: "''cube'' \<in> set (selection demo_host)"
    and cb: "checkBox demo_host 2"
    and pk: "findKeyframe demo_host ''cube'' ''translateX'' Previous (currentTime demo_host)
               = Some 0"
    and nk: "findKeyframe demo_host ''cube'' ''translateX'' Next (currentTime demo_host)
               = Some 20"
    by (simp_all add: demo_host_def)
  have ch: "''translateX'' \<in> set channels" by (simp add: channels_def)
  have at: "''translateX'' \<in> set [''translateX'', ''translateY'', ''translateZ'', ''rotateX'',
                                   ''rotateY'', ''rotateOrder'']"
    by simp
  have m: "map_of [(''translateX'', 2), (''translateY'', 3), (''translateZ'', 4),
                   (''rotateX'', 5), (''rotateY'', 6), (''rotateZ'', 7 :: nat)] ''translateX''
             = Some 2"
    by simp
  have ne: "(0 :: real) \<noteq> 20" by simp
  have v: "overshoot_value demo_host ''cube'' ''translateX'' (currentTime demo_host) 0 20 (- 1)
             (sliderValue (floatSliderGrp demo_host (intensity_slider demo_ui))) = 5"
    by (simp add: overshoot_value_def calculate_overshoot_def demo_host_def)
  from C4_processed_channel_written
         [OF demo_acb sel demo_listAttr(1) at ch m cb pk nk ne, of "- 1"]
  have "\<exists>h'. apply_overshoot demo_ui demo_host (- 1) = Inr h'
          \<and> SetAttr ''cube.translateX'' 5 \<in> set (issued demo_host h')
          \<and> SetKeyframe ''cube'' ''translateX'' 10 5 \<in> set (issued demo_host h')"
    unfolding v by (simp add: demo_fields)
  with sel ch cb pk nk show ?thesis by simp
qed



section \<open>The selection\<close>

text \<open>
  C7. After a run the selection is the selection the run started with: the commands of a
  run begin and end with the selection of the objects that were selected at its start,
  and the selections of single objects made in between are overridden by the last one.
  (A run that raises does so before its first command.)
\<close>

theorem C7_selection_restored:
  assumes "apply_overshoot u h d = Inr h'"
  shows "selection h' = selection h
         \<and> (\<exists>cmds. issued h h' = Select (selection h) # cmds @ [Select (selection h), Refresh])"
  using apply_overshoot_selection [OF assms] apply_overshoot_trace [OF assms] by blast

theorem C7_selection_restored_witness:
  "apply_overshoot demo_ui demo_host 1 = Inr (demo_result 1)
   \<and> Select [''cube''] \<in> set (issued demo_host (demo_result 1))
   \<and> selection demo_host = [''cube'', ''ball'']
   \<and> selection (demo_result 1) = [''cube'', ''ball'']"
proof -
  have "Select [''cube''] \<in> set (issued demo_host (demo_result 1))"
    by (simp add: demo_issued demo_commands_def)
  with C7_selection_restored [OF demo_run [of 1]] demo_run [of 1] demo_fields(2)
  show ?thesis by simp
qed


section \<open>The panel and its controls\<close>

lemma fold_checkBox_edit:
  "checkBox (fold (\<lambda>checkbox. checkBox_edit checkbox b) xs h) w
     = (if w \<in> set xs then b else checkBox h w)"
  by (induction xs arbitrary: h) (auto simp: checkBox_edit_def)

lemma fold_checkBox_edit_slider [simp]:
  "floatSliderGrp (fold (\<lambda>checkbox. checkBox_edit checkbox b) xs h) = floatSliderGrp h"
  by (induction xs arbitrary: h) (auto simp: checkBox_edit_def)

lemma toggle_all_checkboxes_slider [simp]:
  "floatSliderGrp (toggle_all_checkboxes u h) = floatSliderGrp h"
  by (simp add: toggle_all_checkboxes_def Let_def)

lemma write_attrs_slider [simp]:
  "floatSliderGrp (write_attrs obj cf od h) = floatSliderGrp h"
  by (induction od arbitrary: h) (auto simp: setAttr_def setKeyframe_def)

lemma write_objects_slider [simp]:
  "floatSliderGrp (write_objects u cf ods h) = floatSliderGrp h"
  by (induction ods arbitrary: h) (auto simp: select_def mel_eval_def Let_def)




lemma toggle_all_checkboxes_checkBox:
  "checkBox (toggle_all_checkboxes u h) w
     = (if w \<in> set (translate_checkboxes u @ rotate_checkboxes u)
        then checkBox h (check_all u) else checkBox h w)"
  by (simp add: toggle_all_checkboxes_def Let_def fold_checkBox_edit)


lemma create_window_boxes:
  "translate_checkboxes (fst (create_window h0))
     = [Suc (Suc (next_control h0)), Suc (Suc (Suc (next_control h0))),
        Suc (Suc (Suc (Suc (next_control h0))))]"
  "rotate_checkboxes (fst (create_window h0))
     = [Suc (Suc (Suc (Suc (Suc (next_control h0))))),
        Suc (Suc (Suc (Suc (Suc (Suc (next_control h0)))))),
        Suc (Suc (Suc (Suc (Suc (Suc (Suc (next_control h0)))))))]"
  by (simp_all add: create_window_def new_checkBox_def new_floatSliderGrp_def Let_def)


lemma create_window_checked:
  "\<forall>cb \<in> set (translate_checkboxes (fst (create_window h0))
              @ rotate_checkboxes (fst (create_window h0))).
     checkBox (snd (create_window h0)) cb"
proof -
  have "checkBox (snd (create_window h0)) cb
          = (if cb \<in> set (translate_checkboxes (fst (create_window h0))
                          @ rotate_checkboxes (fst (create_window h0)))
             then True else checkBox (snd (create_window h0)) cb)" for cb
    by (simp add: create_window_def new_checkBox_def new_floatSliderGrp_def Let_def
          toggle_all_checkboxes_checkBox)
  then show ?thesis by metis
qed



text \<open>
  C6. \<^verbatim>\<open>toggle_all_checkboxes\<close> gives every translate and rotate check box the value of
  ``Check All''; so a click that turns ``Check All'' on turns all of them on, and a click
  that turns it off turns all of them off. The panel has three translate and three
  rotate boxes.
\<close>

theorem C6_check_all_sets_six:
  "(\<forall>cb \<in> set (translate_checkboxes u @ rotate_checkboxes u).
      checkBox (toggle_all_checkboxes u h) cb = checkBox h (check_all u))
   \<and> (\<forall>cb \<in> set (translate_checkboxes u @ rotate_checkboxes u).
      checkBox (handle u (CheckBoxClick (check_all u)) h) cb = (\<not> checkBox h (check_all u)))
   \<and> length (translate_checkboxes (fst (create_window h0))) = 3
   \<and> length (rotate_checkboxes (fst (create_window h0))) = 3"
  by (simp add: toggle_all_checkboxes_checkBox create_window_boxes checkBox_edit_def Let_def)

theorem C6_check_all_witness:
  "6 \<in> set (translate_checkboxes demo_ui @ rotate_checkboxes demo_ui)
   \<and> checkBox demo_host (check_all demo_ui)
   \<and> \<not> checkBox demo_host 6
   \<and> checkBox (toggle_all_checkboxes demo_ui demo_host) 6
   \<and> \<not> checkBox (handle demo_ui (CheckBoxClick (check_all demo_ui)) demo_host) 5"
proof -
  have m: "6 \<in> set (translate_checkboxes demo_ui @ rotate_checkboxes demo_ui)"
    "5 \<in> set (translate_checkboxes demo_ui @ rotate_checkboxes demo_ui)"
    by (simp_all add: demo_ui_def)
  have c: "checkBox demo_host (check_all demo_ui)" "\<not> checkBox demo_host 6"
    by (simp_all add: demo_host_def demo_ui_def)
  from C6_check_all_sets_six [of demo_ui demo_host] m c show ?thesis by blast
qed


end
